theory Spec2Isabelle
  imports Main "HOL-Library.Sublist"
begin

section \<open>The Dropbox storage backend (storages/backends/dropbox.py)\<close>

text \<open>
  The module adapts the remote Dropbox client to Django's storage interface. The model
  keeps the module's own code: the two constructors, \<open>_full_path\<close>, \<open>exists\<close>,
  \<open>listdir\<close>, the time accessors, \<open>_save\<close> with \<open>_chunked_upload\<close>, and the lazy
  \<open>file\<close> property of \<open>DropBoxFile\<close>. Exceptions are values of type \<open>error\<close>; a call
  that raises returns \<open>Inl\<close>. The remote service is a record of response functions, and
  the calls made to it are recorded in a list where a property counts them.
\<close>

subsection \<open>Python strings\<close>

type_synonym bytes = "char list"

definition backslash :: char where
  "backslash = CHR 0x5C"

text \<open>\<open>s.replace(old, new, 1)\<close>: the leftmost occurrence only.\<close>

fun replace_first :: "string \<Rightarrow> string \<Rightarrow> string \<Rightarrow> string" where
  "replace_first old new [] = (if old = [] then new else [])"
| "replace_first old new (c # cs) =
     (if prefix old (c # cs) then new @ drop (length old) (c # cs)
      else c # replace_first old new cs)"

text \<open>\<open>s.replace(old, new)\<close>: every occurrence, left to right, without overlap.\<close>

function str_replace :: "string \<Rightarrow> string \<Rightarrow> string \<Rightarrow> string" where
  "str_replace old new s =
     (if old = [] then new @ concat (map (\<lambda>c. c # new) s)
      else if prefix old s then new @ str_replace old new (drop (length old) s)
      else (case s of [] \<Rightarrow> [] | c # cs \<Rightarrow> c # str_replace old new cs))"
  by pat_completeness auto
termination
  by (relation "measure (\<lambda>(old, new, s). length s)") (auto simp: prefix_def)

text \<open>\<open>s.split(sep)\<close> for a one-character separator, and \<open>sep.join(parts)\<close>.\<close>

fun split_sep :: "char \<Rightarrow> string \<Rightarrow> string list" where
  "split_sep sep [] = [[]]"
| "split_sep sep (c # cs) =
     (if c = sep then [] # split_sep sep cs
      else (case split_sep sep cs of [] \<Rightarrow> [[c]] | w # ws \<Rightarrow> (c # w) # ws))"

fun join_sep :: "string \<Rightarrow> string list \<Rightarrow> string" where
  "join_sep sep [] = []"
| "join_sep sep [w] = w"
| "join_sep sep (w # ws) = w @ sep @ join_sep sep ws"

definition rstrip :: "char \<Rightarrow> string \<Rightarrow> string" where
  "rstrip c s = rev (dropWhile (\<lambda>x. x = c) (rev s))"

subsection \<open>Exceptions\<close>

datatype api_failure = NotFound | PermissionDenied | OtherFailure string

text \<open>
  \<open>ApiError\<close> is \<open>dropbox.exceptions.ApiError\<close>, the class the module imports and catches;
  \<open>HttpError\<close> stands for the client's exceptions outside that class.
\<close>

datatype error =
    ImproperlyConfigured string
  | SuspiciousFileOperation
  | ApiError api_failure
  | HttpError nat
  | NameError string
  | KeyError string
  | TypeError
  | ValueError

subsection \<open>Path joining\<close>

text \<open>
  Modelled from the spec: \<open>safe_join\<close> is \<open>django.utils._os.safe_join\<close>, which is imported
  by the module and is not part of its source. The spec asks for a join of the root path
  and the name with "traversal-safe join semantics (rejecting attempts to escape the
  root)". The model is that join on a POSIX host, where \<open>/\<close> is the only separator: the
  joined path is made absolute and normalised (\<open>.\<close>, \<open>..\<close> and repeated separators
  resolved), and it is rejected unless it is the base, lies under the base followed by a
  separator, or the base is the file-system root. \<open>cwd\<close> is the working directory of the
  process, used for a relative path only.
\<close>

definition isabs :: "string \<Rightarrow> bool" where
  "isabs p = prefix ''/'' p"

definition join :: "string \<Rightarrow> string \<Rightarrow> string" where
  "join a b =
     (if prefix ''/'' b then b
      else if a = [] \<or> last a = CHR ''/'' then a @ b
      else a @ ''/'' @ b)"

definition norm_step :: "bool \<Rightarrow> string list \<Rightarrow> string \<Rightarrow> string list" where
  "norm_step initial_slashes new_comps part =
     (if part = [] \<or> part = ''.'' then new_comps
      else if part \<noteq> ''..'' \<or> (\<not> initial_slashes \<and> new_comps = [])
              \<or> (new_comps \<noteq> [] \<and> last new_comps = ''..'')
        then new_comps @ [part]
      else if new_comps \<noteq> [] then butlast new_comps
      else new_comps)"

definition normpath :: "string \<Rightarrow> string" where
  "normpath p =
     (if p = [] then ''.''
      else
        (let initial_slashes =
               (if prefix ''/'' p
                then (if prefix ''//'' p \<and> \<not> prefix ''///'' p then 2 else 1 :: nat)
                else 0);
             comps = foldl (norm_step (initial_slashes \<noteq> 0)) [] (split_sep CHR ''/'' p);
             path = replicate initial_slashes CHR ''/'' @ join_sep ''/'' comps
         in if path = [] then ''.'' else path))"

definition abspath :: "string \<Rightarrow> string \<Rightarrow> string" where
  "abspath cwd p = normpath (if isabs p then p else join cwd p)"

definition dirname :: "string \<Rightarrow> string" where
  "dirname p =
     (let i = length p - length (takeWhile (\<lambda>x. x \<noteq> CHR ''/'') (rev p));
          head = take i p
      in if head \<noteq> [] \<and> head \<noteq> replicate (length head) CHR ''/''
         then rstrip CHR ''/'' head else head)"

text \<open>The test \<open>safe_join\<close> applies: is \<open>p\<close> the base, or below it?\<close>

definition under_base :: "string \<Rightarrow> string \<Rightarrow> bool" where
  "under_base base_path p =
     (prefix (base_path @ ''/'') p \<or> p = base_path \<or> dirname base_path = base_path)"

definition safe_join :: "string \<Rightarrow> string \<Rightarrow> string \<Rightarrow> error + string" where
  "safe_join cwd base name =
     (let final_path = abspath cwd (join base name);
          base_path = abspath cwd base
      in if \<not> under_base base_path final_path
         then Inl SuspiciousFileOperation
         else Inr final_path)"

subsection \<open>Settings and the constructors\<close>

text \<open>
  An argument or a setting is \<open>None\<close> or a string. Python's \<open>a or b\<close> is \<open>a\<close> when \<open>a\<close>
  is truthy (a non-empty string) and \<open>b\<close> otherwise.
\<close>

definition truthy :: "string option \<Rightarrow> bool" where
  "truthy v = (case v of None \<Rightarrow> False | Some s \<Rightarrow> s \<noteq> [])"

definition py_or :: "string option \<Rightarrow> string option \<Rightarrow> string option" where
  "py_or a b = (if truthy a then a else b)"

text \<open>
  Modelled from the spec: \<open>setting\<close> is \<open>storages.utils.setting\<close>, which is not among the
  source files. The spec's configuration surface is "named settings", each with an
  optional default ("root path (default "/")") and "individually overridable by explicit
  constructor arguments": the lookup returns the named setting when the settings define
  it and the default otherwise. A defined setting may itself hold \<open>None\<close>.
\<close>

type_synonym settings = "string \<Rightarrow> string option option"

definition setting :: "settings \<Rightarrow> string \<Rightarrow> string option \<Rightarrow> string option" where
  "setting conf name dflt = (case conf name of None \<Rightarrow> dflt | Some v \<Rightarrow> v)"

text \<open>
  Modelled from the spec: the client classes belong to the Dropbox SDK, not to the
  source. The spec's client is "bound to that token", carries for the team variant "a
  namespace-scoped root header" and then "impersonates a specific admin user
  identifier". The client object is the token it was built with, its extra request
  headers, and the team member it acts as (\<open>as_admin\<close>), if any.
\<close>

record dropbox_client =
  client_token :: string
  client_headers :: "(string \<times> string) list"
  client_acts_as :: "string option"

definition Dropbox :: "string \<Rightarrow> dropbox_client" where
  "Dropbox token = \<lparr>client_token = token, client_headers = [], client_acts_as = None\<rparr>"

definition DropboxTeam :: "string \<Rightarrow> (string \<times> string) list \<Rightarrow> dropbox_client" where
  "DropboxTeam token hdrs =
     \<lparr>client_token = token, client_headers = hdrs, client_acts_as = None\<rparr>"

definition as_admin :: "dropbox_client \<Rightarrow> string \<Rightarrow> dropbox_client" where
  "as_admin c member = c\<lparr>client_acts_as := Some member\<rparr>"

record storage =
  root_path :: "string option"
  client :: dropbox_client

text \<open>
  The names bound in the module's global scope: its imports (lines 11 to 26 of the
  source), \<open>DATE_FORMAT\<close> and its classes. A name used at run time that is neither here
  nor a builtin raises \<open>NameError\<close>.
\<close>

definition module_globals :: "string list" where
  "module_globals =
     [''absolute_import'', ''datetime'', ''copyfileobj'', ''SpooledTemporaryFile'',
      ''ImproperlyConfigured'', ''File'', ''Storage'', ''safe_join'', ''deconstructible'',
      ''Dropbox'', ''ApiError'', ''CommitInfo'', ''UploadSessionCursor'', ''setting'',
      ''DATE_FORMAT'', ''DropBoxStorageException'', ''DropBoxFile'', ''DropBoxStorage'',
      ''DropBoxTeamStorage'']"

definition token_message :: string where
  "token_message = ''You must configure a token auth at'' @ [CHR 0x27]
     @ ''settings.DROPBOX_OAUTH2_TOKEN'' @ [CHR 0x27] @ ''.''"

definition namespace_message :: string where
  "namespace_message = ''You must configure a namespace at'' @ [CHR 0x27]
     @ ''settings.DROPBOX_TEAM_NAMESPACE'' @ [CHR 0x27] @ ''.''"

definition admin_message :: string where
  "admin_message = ''You must configure an admin at'' @ [CHR 0x27]
     @ ''settings.DROPBOX_TEAM_ADMIN'' @ [CHR 0x27] @ ''.''"

text \<open>\<open>DropBoxStorage.__init__(self, oauth2_access_token=None, root_path=None)\<close>.\<close>

definition DropBoxStorage_init ::
  "settings \<Rightarrow> string option \<Rightarrow> string option \<Rightarrow> error + storage" where
  "DropBoxStorage_init conf oauth2_access_token root =
     (let token = py_or oauth2_access_token (setting conf ''DROPBOX_OAUTH2_TOKEN'' None);
          root' = py_or root (setting conf ''DROPBOX_ROOT_PATH'' (Some ''/''))
      in case token of
           None \<Rightarrow> Inl (ImproperlyConfigured token_message)
         | Some t \<Rightarrow> Inr \<lparr>root_path = root', client = Dropbox t\<rparr>)"

text \<open>
  The header value \<open>'{".tag": "namespace_id", "namespace_id": "%s"}' % team_namespace\<close>.
\<close>

definition path_root_header :: "string \<Rightarrow> string" where
  "path_root_header team_namespace =
     ''{'' @ [CHR 0x22] @ ''.tag'' @ [CHR 0x22] @ '': '' @ [CHR 0x22] @ ''namespace_id''
     @ [CHR 0x22] @ '', '' @ [CHR 0x22] @ ''namespace_id'' @ [CHR 0x22] @ '': ''
     @ [CHR 0x22] @ team_namespace @ [CHR 0x22] @ ''}''"

text \<open>
  \<open>DropBoxTeamStorage.__init__(self, oauth2_access_token=None, root_path=None,
  headers=None, team_namespace=None, team_admin=None)\<close>. The three checks come first;
  then the name \<open>DropboxTeam\<close> is looked up in the module's globals.
\<close>

definition DropBoxTeamStorage_init ::
  "settings \<Rightarrow> string option \<Rightarrow> string option \<Rightarrow> (string \<times> string) list option
     \<Rightarrow> string option \<Rightarrow> string option \<Rightarrow> error + storage" where
  "DropBoxTeamStorage_init conf oauth2_access_token root hdrs team_namespace team_admin =
     (let token = py_or oauth2_access_token (setting conf ''DROPBOX_OAUTH2_TOKEN'' None);
          namespace = py_or team_namespace (setting conf ''DROPBOX_TEAM_NAMESPACE'' None);
          admin = py_or team_admin (setting conf ''DROPBOX_TEAM_ADMIN'' None);
          root' = py_or root (setting conf ''DROPBOX_ROOT_PATH'' (Some ''/''))
      in case token of
           None \<Rightarrow> Inl (ImproperlyConfigured token_message)
         | Some t \<Rightarrow>
             (case namespace of
                None \<Rightarrow> Inl (ImproperlyConfigured namespace_message)
              | Some ns \<Rightarrow>
                  (case admin of
                     None \<Rightarrow> Inl (ImproperlyConfigured admin_message)
                   | Some a \<Rightarrow>
                       if ''DropboxTeam'' \<in> set module_globals
                       then Inr \<lparr>root_path = root',
                                 client = as_admin
                                   (DropboxTeam t
                                      [(''Dropbox-API-Path-Root'', path_root_header ns)])
                                   (''dbmid:'' @ a)\<rparr>
                       else Inl (NameError ''DropboxTeam''))))"

subsection \<open>The remote service\<close>

text \<open>
  Metadata is read by key (\<open>metadata['contents']\<close>, \<open>metadata['bytes']\<close>, ...): a
  dictionary, kept as an association list. The children of a folder are dictionaries
  with the keys \<open>path\<close> and \<open>is_dir\<close>.
\<close>

record entry =
  entry_path :: string
  entry_is_dir :: bool

datatype field = Str string | Num nat | Children "entry list"

type_synonym metadata = "(string \<times> field) list"

record cursor =
  session_id :: string
  offset :: nat

record commit_info =
  commit_path :: string

text \<open>
  Modelled from the spec: the "remote object-store API (consumed)", with "metadata
  fetch, file download (stream), file upload (single-shot and session-based chunked),
  delete, temporary-link generation". Each field is what the service answers to the
  method of that name when the module calls it through a client: a value, or the
  exception the call raises.
\<close>

record remote =
  files_delete :: "dropbox_client \<Rightarrow> string \<Rightarrow> error + unit"
  files_get_metadata :: "dropbox_client \<Rightarrow> string \<Rightarrow> error + metadata"
  files_get_temporary_link :: "dropbox_client \<Rightarrow> string \<Rightarrow> error + string"
  files_download :: "dropbox_client \<Rightarrow> string \<Rightarrow> error + bytes"
  files_upload :: "dropbox_client \<Rightarrow> bytes \<Rightarrow> string \<Rightarrow> error + unit"
  files_upload_session_start :: "dropbox_client \<Rightarrow> bytes \<Rightarrow> error + string"
  files_upload_session_append_v2 :: "dropbox_client \<Rightarrow> bytes \<Rightarrow> cursor \<Rightarrow> error + unit"
  files_upload_session_finish ::
    "dropbox_client \<Rightarrow> bytes \<Rightarrow> cursor \<Rightarrow> commit_info \<Rightarrow> error + unit"

text \<open>The calls a property counts, with their arguments.\<close>

datatype call =
    FilesDownload string
  | FilesUpload bytes string
  | SessionStart bytes
  | SessionAppend bytes cursor
  | SessionFinish bytes cursor commit_info

subsection \<open>Path resolution and the read-only operations\<close>

text \<open>
  \<open>_full_path\<close> (lines 64 to 67). A root path of \<open>None\<close> (a setting that holds \<open>None\<close>)
  is not a path, and joining it raises \<open>TypeError\<close>.
\<close>

definition full_path :: "string \<Rightarrow> storage \<Rightarrow> string \<Rightarrow> error + string" where
  "full_path cwd self name =
     (let name' = (if name = ''/'' then [] else name) in
      case root_path self of
        None \<Rightarrow> Inl TypeError
      | Some root \<Rightarrow>
          (case safe_join cwd root name' of
             Inl e \<Rightarrow> Inl e
           | Inr p \<Rightarrow> Inr (str_replace [backslash] ''/'' p)))"

text \<open>
  \<open>exists\<close> (lines 72 to 76): the body of the \<open>try\<close> is evaluated first; \<open>except ApiError\<close> then turns
  every exception of that class into \<open>False\<close>. \<open>bool(metadata)\<close> of a dictionary is
  whether it is non-empty.
\<close>

definition exists :: "string \<Rightarrow> remote \<Rightarrow> storage \<Rightarrow> string \<Rightarrow> error + bool" where
  "exists cwd api self name =
     (case (case full_path cwd self name of
              Inl e \<Rightarrow> Inl e
            | Inr p \<Rightarrow>
                (case files_get_metadata api (client self) p of
                   Inl e \<Rightarrow> Inl e
                 | Inr md \<Rightarrow> Inr (md \<noteq> []))) of
        Inl (ApiError a) \<Rightarrow> Inr False
      | r \<Rightarrow> r)"

text \<open>
  \<open>listdir\<close> (lines 78 to 89): the body of the \<open>for\<close> loop rewrites the entry's path with two
  \<open>replace(..., '', 1)\<close> and appends it to one of the two lists.
\<close>

definition child_name :: "string \<Rightarrow> entry \<Rightarrow> string" where
  "child_name fp e = replace_first ''/'' [] (replace_first fp [] (entry_path e))"

fun listdir_loop ::
  "string \<Rightarrow> entry list \<Rightarrow> string list \<times> string list \<Rightarrow> string list \<times> string list" where
  "listdir_loop fp [] (directories, files) = (directories, files)"
| "listdir_loop fp (e # es) (directories, files) =
     (if entry_is_dir e
      then listdir_loop fp es (directories @ [child_name fp e], files)
      else listdir_loop fp es (directories, files @ [child_name fp e]))"

definition listdir ::
  "string \<Rightarrow> remote \<Rightarrow> storage \<Rightarrow> string \<Rightarrow> error + (string list \<times> string list)" where
  "listdir cwd api self path =
     (case full_path cwd self path of
        Inl e \<Rightarrow> Inl e
      | Inr fp \<Rightarrow>
          (case files_get_metadata api (client self) fp of
             Inl e \<Rightarrow> Inl e
           | Inr md \<Rightarrow>
               (case map_of md ''contents'' of
                  None \<Rightarrow> Inl (KeyError ''contents'')
                | Some (Children es) \<Rightarrow> Inr (listdir_loop fp es ([], []))
                | Some (Str s) \<Rightarrow> (if s = [] then Inr ([], []) else Inl TypeError)
                | Some (Num n) \<Rightarrow> Inl TypeError)))"

text \<open>\<open>size\<close> (lines 91 to 93), under the name \<open>size_of\<close>: the value under \<open>bytes\<close>.\<close>

definition size_of :: "string \<Rightarrow> remote \<Rightarrow> storage \<Rightarrow> string \<Rightarrow> error + field" where
  "size_of cwd api self name =
     (case full_path cwd self name of
        Inl e \<Rightarrow> Inl e
      | Inr p \<Rightarrow>
          (case files_get_metadata api (client self) p of
             Inl e \<Rightarrow> Inl e
           | Inr md \<Rightarrow>
               (case map_of md ''bytes'' of
                  None \<Rightarrow> Inl (KeyError ''bytes'')
                | Some v \<Rightarrow> Inr v)))"

subsection \<open>Timestamps\<close>

text \<open>
  Modelled from the spec: \<open>datetime.strptime\<close> belongs to Python's standard library and
  is not part of the source. The spec fixes the format as
  "Weekday, DD Mon YYYY HH:MM:SS +0000" and says that a malformed timestamp raises a
  parse error. The model reads the format string \<open>DATE_FORMAT\<close> of the source directive
  by directive, as the library documents them for the C locale: \<open>%a\<close> and \<open>%b\<close> are the
  English abbreviated weekday and month names (letters match in either case), \<open>%d\<close>,
  \<open>%H\<close>, \<open>%M\<close>, \<open>%S\<close> are numbers of one or two digits in their ranges, \<open>%Y\<close> is four
  digits, \<open>%X\<close> is \<open>%H:%M:%S\<close>, white space in the format matches one or more white-space
  characters, and every other character matches itself. The alternatives are tried in
  the library's order, the first complete match of the format is taken, and input left
  over after it is an error, as is a date that does not exist. The result is a naive
  date and time (no time zone: \<open>+0000\<close> is matched as text).
\<close>

record datetime =
  dt_year :: nat
  dt_month :: nat
  dt_day :: nat
  dt_hour :: nat
  dt_minute :: nat
  dt_second :: nat

definition DATE_FORMAT :: string where
  "DATE_FORMAT = ''%a, %d %b %Y %X +0000''"

datatype token = Directive char | Whitespace | Literal char

definition is_space :: "char \<Rightarrow> bool" where
  "is_space c = (c \<in> set [CHR '' '', CHR 0x09, CHR 0x0A, CHR 0x0B, CHR 0x0C, CHR 0x0D])"

definition lower :: "char \<Rightarrow> char" where
  "lower c = (let n = of_char c :: nat in if 65 \<le> n \<and> n \<le> 90 then char_of (n + 32) else c)"

definition between :: "char \<Rightarrow> char \<Rightarrow> char \<Rightarrow> bool" where
  "between lo hi c = ((of_char lo :: nat) \<le> of_char c \<and> (of_char c :: nat) \<le> of_char hi)"

definition digit :: "char \<Rightarrow> bool" where
  "digit = between CHR ''0'' CHR ''9''"

fun tokens :: "string \<Rightarrow> token list" where
  "tokens [] = []"
| "tokens [c] =
     [if c = CHR ''%'' then Directive c else if is_space c then Whitespace else Literal c]"
| "tokens (c # d # cs) =
     (if c = CHR ''%'' then
        (if d = CHR ''X''
         then [Directive CHR ''H'', Literal CHR '':'', Directive CHR ''M'', Literal CHR '':'',
               Directive CHR ''S''] @ tokens cs
         else if d = CHR ''%'' then Literal d # tokens cs
         else Directive d # tokens cs)
      else if is_space c then
        (if is_space d then tokens (d # cs) else Whitespace # tokens (d # cs))
      else Literal c # tokens (d # cs))"

fun match_classes :: "(char \<Rightarrow> bool) list \<Rightarrow> string \<Rightarrow> (string \<times> string) option" where
  "match_classes [] s = Some ([], s)"
| "match_classes (p # ps) [] = None"
| "match_classes (p # ps) (c # cs) =
     (if p c then (case match_classes ps cs of None \<Rightarrow> None | Some (m, r) \<Rightarrow> Some (c # m, r))
      else None)"

definition number_of :: "string \<Rightarrow> nat" where
  "number_of s = foldl (\<lambda>n c. if digit c then 10 * n + (of_char c - 48) else n) 0 s"

definition numeric :: "(char \<Rightarrow> bool) list list \<Rightarrow> string \<Rightarrow> (nat \<times> string) list" where
  "numeric alts s =
     concat (map (\<lambda>ps. case match_classes ps s of None \<Rightarrow> [] | Some (m, r) \<Rightarrow> [(number_of m, r)]) alts)"

fun named :: "string list \<Rightarrow> nat \<Rightarrow> string \<Rightarrow> (nat \<times> string) list" where
  "named [] i s = []"
| "named (n # ns) i s =
     (if map lower (take (length n) s) = n then [(i, drop (length n) s)] else []) @ named ns (Suc i) s"

definition directive :: "char \<Rightarrow> string \<Rightarrow> (nat \<times> string) list" where
  "directive d s =
     (if d = CHR ''a'' then named [''mon'', ''tue'', ''wed'', ''thu'', ''fri'', ''sat'', ''sun''] 0 s
      else if d = CHR ''b'' then
        named [''jan'', ''feb'', ''mar'', ''apr'', ''may'', ''jun'', ''jul'', ''aug'', ''sep'',
               ''oct'', ''nov'', ''dec''] 1 s
      else if d = CHR ''d'' then
        numeric [[(=) CHR ''3'', between CHR ''0'' CHR ''1''], [between CHR ''1'' CHR ''2'', digit],
                 [(=) CHR ''0'', between CHR ''1'' CHR ''9''], [between CHR ''1'' CHR ''9''],
                 [(=) CHR '' '', between CHR ''1'' CHR ''9'']] s
      else if d = CHR ''Y'' then numeric [[digit, digit, digit, digit]] s
      else if d = CHR ''H'' then
        numeric [[(=) CHR ''2'', between CHR ''0'' CHR ''3''], [between CHR ''0'' CHR ''1'', digit],
                 [digit]] s
      else if d = CHR ''M'' then numeric [[between CHR ''0'' CHR ''5'', digit], [digit]] s
      else if d = CHR ''S'' then
        numeric [[(=) CHR ''6'', between CHR ''0'' CHR ''1''], [between CHR ''0'' CHR ''5'', digit],
                 [digit]] s
      else [])"

fun spaces :: "string \<Rightarrow> string list" where
  "spaces [] = []"
| "spaces (c # cs) = (if is_space c then spaces cs @ [cs] else [])"

fun parse :: "token list \<Rightarrow> string \<Rightarrow> (char \<times> nat) list \<Rightarrow> ((char \<times> nat) list \<times> string) list" where
  "parse [] s found = [(found, s)]"
| "parse (Directive d # ts) s found =
     concat (map (\<lambda>(v, r). parse ts r (found @ [(d, v)])) (directive d s))"
| "parse (Whitespace # ts) s found = concat (map (\<lambda>r. parse ts r found) (spaces s))"
| "parse (Literal c # ts) s found =
     (case s of [] \<Rightarrow> [] | x # xs \<Rightarrow> if lower x = lower c then parse ts xs found else [])"

definition leap :: "nat \<Rightarrow> bool" where
  "leap y = (y mod 4 = 0 \<and> (y mod 100 \<noteq> 0 \<or> y mod 400 = 0))"

definition days_in_month :: "nat \<Rightarrow> nat \<Rightarrow> nat" where
  "days_in_month y m =
     (if m = 2 then (if leap y then 29 else 28)
      else if m \<in> set [4, 6, 9, 11] then 30 else 31)"

definition found_or :: "(char \<times> nat) list \<Rightarrow> char \<Rightarrow> nat \<Rightarrow> nat" where
  "found_or found d dflt = (case map_of found d of None \<Rightarrow> dflt | Some v \<Rightarrow> v)"

definition strptime :: "string \<Rightarrow> string \<Rightarrow> error + datetime" where
  "strptime data_string fmt =
     (case parse (tokens fmt) data_string [] of
        [] \<Rightarrow> Inl ValueError
      | (found, rest) # others \<Rightarrow>
          if rest \<noteq> [] then Inl ValueError
          else
            (let y = found_or found CHR ''Y'' 1900; m = found_or found CHR ''b'' 1;
                 d = found_or found CHR ''d'' 1; s = found_or found CHR ''S'' 0
             in if y < 1 \<or> days_in_month y m < d \<or> 59 < s then Inl ValueError
                else Inr \<lparr>dt_year = y, dt_month = m, dt_day = d,
                          dt_hour = found_or found CHR ''H'' 0,
                          dt_minute = found_or found CHR ''M'' 0, dt_second = s\<rparr>))"

text \<open>\<open>modified_time\<close> and \<open>accessed_time\<close>: the value under the key must be a string.\<close>

definition modified_time :: "string \<Rightarrow> remote \<Rightarrow> storage \<Rightarrow> string \<Rightarrow> error + datetime" where
  "modified_time cwd api self name =
     (case full_path cwd self name of
        Inl e \<Rightarrow> Inl e
      | Inr p \<Rightarrow>
          (case files_get_metadata api (client self) p of
             Inl e \<Rightarrow> Inl e
           | Inr md \<Rightarrow>
               (case map_of md ''modified'' of
                  None \<Rightarrow> Inl (KeyError ''modified'')
                | Some (Str s) \<Rightarrow> strptime s DATE_FORMAT
                | Some v \<Rightarrow> Inl TypeError)))"

definition accessed_time :: "string \<Rightarrow> remote \<Rightarrow> storage \<Rightarrow> string \<Rightarrow> error + datetime" where
  "accessed_time cwd api self name =
     (case full_path cwd self name of
        Inl e \<Rightarrow> Inl e
      | Inr p \<Rightarrow>
          (case files_get_metadata api (client self) p of
             Inl e \<Rightarrow> Inl e
           | Inr md \<Rightarrow>
               (case map_of md ''client_mtime'' of
                  None \<Rightarrow> Inl (KeyError ''client_mtime'')
                | Some (Str s) \<Rightarrow> strptime s DATE_FORMAT
                | Some v \<Rightarrow> Inl TypeError)))"

text \<open>\<open>delete\<close> and \<open>url\<close> pass the resolved path on.\<close>

definition delete :: "string \<Rightarrow> remote \<Rightarrow> storage \<Rightarrow> string \<Rightarrow> error + unit" where
  "delete cwd api self name =
     (case full_path cwd self name of
        Inl e \<Rightarrow> Inl e
      | Inr p \<Rightarrow> files_delete api (client self) p)"

definition url :: "string \<Rightarrow> remote \<Rightarrow> storage \<Rightarrow> string \<Rightarrow> error + string" where
  "url cwd api self name =
     (case full_path cwd self name of
        Inl e \<Rightarrow> Inl e
      | Inr p \<Rightarrow> files_get_temporary_link api (client self) p)"

subsection \<open>Saving\<close>

text \<open>The class attribute \<open>CHUNK_SIZE = 4 * 1024 * 1024\<close> (line 54).\<close>

definition CHUNK_SIZE :: nat where
  "CHUNK_SIZE = 4 * 1024 * 1024"

text \<open>
  Modelled from the spec: the content handed to \<open>_save\<close> is a Django \<open>File\<close>, whose
  class is not part of the source. The spec's upload algorithm opens the content stream,
  compares its total size with the chunk size, reads "one chunk (\<le>4 MiB)" at a time
  and tracks "offset = bytes read so far". \<open>content_size\<close> is what the attribute \<open>size\<close>
  reports, \<open>content_data\<close> the bytes the reads deliver, \<open>content_pos\<close> what \<open>tell()\<close>
  returns. \<open>open()\<close> rewinds the stream; \<open>read(n)\<close> returns at most \<open>n\<close> of the bytes
  that are left and moves the position past them, \<open>read()\<close> returns all of them. The
  reported size and the number of bytes are separate fields: the loop of
  \<open>_chunked_upload\<close> compares the position with the reported size.
\<close>

record content =
  content_size :: nat
  content_data :: bytes
  content_pos :: nat
  content_closed :: bool

definition content_open :: "content \<Rightarrow> content" where
  "content_open c = c\<lparr>content_pos := 0, content_closed := False\<rparr>"

definition content_close :: "content \<Rightarrow> content" where
  "content_close c = c\<lparr>content_closed := True\<rparr>"

definition content_tell :: "content \<Rightarrow> nat" where
  "content_tell c = content_pos c"

definition content_read :: "content \<Rightarrow> nat option \<Rightarrow> bytes \<times> content" where
  "content_read c n =
     (let rest = drop (content_pos c) (content_data c);
          chunk = (case n of None \<Rightarrow> rest | Some k \<Rightarrow> take k rest)
      in (chunk, c\<lparr>content_pos := content_pos c + length chunk\<rparr>))"

text \<open>
  The result of a step that talks to the service: the calls made so far, the content
  stream, and the value returned or the exception raised.
\<close>

type_synonym 'a outcome = "call list \<times> content \<times> (error + 'a)"

text \<open>
  \<open>upload_loop\<close> is the \<open>while\<close> loop of \<open>_chunked_upload\<close> (lines 132 to 141); it has
  no bound of its own, so it is a partial function and \<open>None\<close> means that it does not
  return. The cursor is passed to the client as it is at the time of the call, and its
  offset is rewritten after each append.
\<close>

partial_function (option) upload_loop ::
  "remote \<Rightarrow> dropbox_client \<Rightarrow> commit_info \<Rightarrow> content \<Rightarrow> cursor \<Rightarrow> call list
     \<Rightarrow> unit outcome option" where
  "upload_loop api cl commit c cur calls =
     (if content_tell c < content_size c then
        (if content_size c - content_tell c \<le> CHUNK_SIZE then
           (let (chunk, c') = content_read c (Some CHUNK_SIZE);
                calls' = calls @ [SessionFinish chunk cur commit]
            in case files_upload_session_finish api cl chunk cur commit of
                 Inl e \<Rightarrow> Some (calls', c', Inl e)
               | Inr u \<Rightarrow> upload_loop api cl commit c' cur calls')
         else
           (let (chunk, c') = content_read c (Some CHUNK_SIZE);
                calls' = calls @ [SessionAppend chunk cur]
            in case files_upload_session_append_v2 api cl chunk cur of
                 Inl e \<Rightarrow> Some (calls', c', Inl e)
               | Inr u \<Rightarrow>
                   upload_loop api cl commit c' (cur\<lparr>offset := content_tell c'\<rparr>) calls'))
      else Some (calls, c, Inr ()))"

text \<open>
  \<open>_chunked_upload\<close> (lines 122 to 130): the first chunk starts the session, and the
  cursor begins at the position after that read.
\<close>

definition chunked_upload ::
  "remote \<Rightarrow> storage \<Rightarrow> content \<Rightarrow> string \<Rightarrow> call list \<Rightarrow> unit outcome option" where
  "chunked_upload api self c dest_path calls =
     (let (chunk, c') = content_read c (Some CHUNK_SIZE);
          calls' = calls @ [SessionStart chunk]
      in case files_upload_session_start api (client self) chunk of
           Inl e \<Rightarrow> Some (calls', c', Inl e)
         | Inr sid \<Rightarrow>
             upload_loop api (client self) \<lparr>commit_path = dest_path\<rparr> c'
               \<lparr>session_id = sid, offset = content_tell c'\<rparr> calls')"

text \<open>
  \<open>_save\<close> (lines 113 to 120). Python evaluates the arguments of a call from left to
  right: in the single-shot branch the content is read before the path is resolved.
  \<open>content.close()\<close> is reached only when no exception was raised.
\<close>

definition save ::
  "string \<Rightarrow> remote \<Rightarrow> storage \<Rightarrow> string \<Rightarrow> content \<Rightarrow> call list \<Rightarrow> string outcome option" where
  "save cwd api self name c0 calls =
     (let c = content_open c0 in
      if content_size c \<le> CHUNK_SIZE then
        (let (payload, c') = content_read c None in
         case full_path cwd self name of
           Inl e \<Rightarrow> Some (calls, c', Inl e)
         | Inr p \<Rightarrow>
             (case files_upload api (client self) payload p of
                Inl e \<Rightarrow> Some (calls @ [FilesUpload payload p], c', Inl e)
              | Inr u \<Rightarrow> Some (calls @ [FilesUpload payload p], content_close c', Inr name)))
      else
        (case full_path cwd self name of
           Inl e \<Rightarrow> Some (calls, c, Inl e)
         | Inr p \<Rightarrow>
             (case chunked_upload api self c p calls of
                None \<Rightarrow> None
              | Some (calls', c', Inl e) \<Rightarrow> Some (calls', c', Inl e)
              | Some (calls', c', Inr u) \<Rightarrow> Some (calls', content_close c', Inr name))))"

subsection \<open>The file object\<close>

text \<open>
  \<open>file_cache\<close> is the attribute \<open>_file\<close> of a \<open>DropBoxFile\<close>, absent (\<open>None\<close>) until
  the property \<open>file\<close> is first read. The download is a stream of bytes;
  \<open>copyfileobj\<close> writes it at the buffer's position and \<open>seek(0)\<close> rewinds the buffer.
\<close>

record buffer =
  buffer_data :: bytes
  buffer_pos :: nat

record dropbox_file =
  file_name :: string
  file_storage :: storage
  file_cache :: "buffer option"

definition DropBoxFile :: "string \<Rightarrow> storage \<Rightarrow> dropbox_file" where
  "DropBoxFile name st = \<lparr>file_name = name, file_storage = st, file_cache = None\<rparr>"

definition copyfileobj :: "bytes \<Rightarrow> buffer \<Rightarrow> buffer" where
  "copyfileobj fsrc fdst =
     \<lparr>buffer_data = take (buffer_pos fdst) (buffer_data fdst) @ fsrc
                      @ drop (buffer_pos fdst + length fsrc) (buffer_data fdst),
      buffer_pos = buffer_pos fdst + length fsrc\<rparr>"

definition seek :: "buffer \<Rightarrow> nat \<Rightarrow> buffer" where
  "seek b n = b\<lparr>buffer_pos := n\<rparr>"

definition SpooledTemporaryFile :: buffer where
  "SpooledTemporaryFile = \<lparr>buffer_data = [], buffer_pos = 0\<rparr>"

text \<open>The property \<open>file\<close> (lines 40 to 47), under the name \<open>file_of\<close>.\<close>

definition file_of ::
  "remote \<Rightarrow> dropbox_file \<Rightarrow> call list \<Rightarrow> call list \<times> dropbox_file \<times> (error + buffer)" where
  "file_of api self calls =
     (case file_cache self of
        Some b \<Rightarrow> (calls, self, Inr b)
      | None \<Rightarrow>
          (case files_download api (client (file_storage self)) (file_name self) of
             Inl e \<Rightarrow> (calls @ [FilesDownload (file_name self)], self, Inl e)
           | Inr response \<Rightarrow>
               (let b = seek (copyfileobj response SpooledTemporaryFile) 0
                in (calls @ [FilesDownload (file_name self)],
                    self\<lparr>file_cache := Some b\<rparr>, Inr b))))"

text \<open>\<open>_open\<close> (lines 109 to 111) builds the file object on the resolved path.\<close>

definition open_file :: "string \<Rightarrow> storage \<Rightarrow> string \<Rightarrow> error + dropbox_file" where
  "open_file cwd self name =
     (case full_path cwd self name of Inl e \<Rightarrow> Inl e | Inr p \<Rightarrow> Inr (DropBoxFile p self))"

subsection \<open>Reading the record of calls\<close>

fun payload :: "call \<Rightarrow> bytes" where
  "payload (FilesDownload p) = []"
| "payload (FilesUpload b p) = b"
| "payload (SessionStart b) = b"
| "payload (SessionAppend b cur) = b"
| "payload (SessionFinish b cur com) = b"

fun is_upload :: "call \<Rightarrow> bool" where
  "is_upload (FilesUpload b p) = True"
| "is_upload other = False"

fun is_start :: "call \<Rightarrow> bool" where
  "is_start (SessionStart b) = True"
| "is_start other = False"

fun is_append :: "call \<Rightarrow> bool" where
  "is_append (SessionAppend b cur) = True"
| "is_append other = False"

fun is_finish :: "call \<Rightarrow> bool" where
  "is_finish (SessionFinish b cur com) = True"
| "is_finish other = False"

fun is_download :: "call \<Rightarrow> bool" where
  "is_download (FilesDownload p) = True"
| "is_download other = False"

definition count :: "(call \<Rightarrow> bool) \<Rightarrow> call list \<Rightarrow> nat" where
  "count kind calls = length (filter kind calls)"

text \<open>
  The content is well behaved when its reported size is the number of bytes it holds:
  then a read of \<open>n\<close> bytes moves the position by \<open>n\<close>, or by what is left of the size.
\<close>

definition well_behaved :: "content \<Rightarrow> bool" where
  "well_behaved c = (content_size c = length (content_data c))"

text \<open>The service accepts every call of an upload session made through the client.\<close>

definition session_accepted :: "remote \<Rightarrow> dropbox_client \<Rightarrow> bool" where
  "session_accepted api cl =
     ((\<forall>b. \<exists>sid. files_upload_session_start api cl b = Inr sid)
      \<and> (\<forall>b cur. files_upload_session_append_v2 api cl b cur = Inr ())
      \<and> (\<forall>b cur com. files_upload_session_finish api cl b cur com = Inr ()))"

text \<open>
  The calls the spec's upload algorithm (step 3c) makes for the bytes \<open>rest\<close> that are
  still unread at offset \<open>off\<close>: "if remaining unread bytes \<le> one chunk size: read them
  and call session-finish ...; else: read exactly one chunk and call session-append with
  the cursor, then advance the cursor's offset".
\<close>

function spec_session_calls :: "string \<Rightarrow> commit_info \<Rightarrow> nat \<Rightarrow> bytes \<Rightarrow> call list" where
  "spec_session_calls sid com off rest =
     (if rest = [] then []
      else if length rest \<le> CHUNK_SIZE
        then [SessionFinish rest \<lparr>session_id = sid, offset = off\<rparr> com]
      else SessionAppend (take CHUNK_SIZE rest) \<lparr>session_id = sid, offset = off\<rparr>
             # spec_session_calls sid com (off + CHUNK_SIZE) (drop CHUNK_SIZE rest))"
  by pat_completeness auto
termination
  by (relation "measure (\<lambda>(sid, com, off, rest). length rest)") (auto simp: CHUNK_SIZE_def)

text \<open>
  An argument is absent when the constructor is given no value for it (\<open>None\<close>, or the
  empty string, which \<open>or\<close> passes over alike) and the settings hold no value for it
  either (the setting is undefined, or defined as \<open>None\<close>).
\<close>

definition absent :: "settings \<Rightarrow> string option \<Rightarrow> string \<Rightarrow> bool" where
  "absent conf arg key = (\<not> truthy arg \<and> setting conf key None = None)"

text \<open>Reading the property \<open>file\<close> of one file object \<open>n\<close> times in a row.\<close>

fun read_file_times ::
  "nat \<Rightarrow> remote \<Rightarrow> dropbox_file \<Rightarrow> call list \<Rightarrow> call list \<times> dropbox_file" where
  "read_file_times 0 api f calls = (calls, f)"
| "read_file_times (Suc n) api f calls =
     (case file_of api f calls of (calls', f', r) \<Rightarrow> read_file_times n api f' calls')"

text \<open>Sample values for the closed instances below.\<close>

definition no_settings :: settings where
  "no_settings = (\<lambda>key. None)"

definition accepting :: remote where
  "accepting =
     \<lparr>files_delete = (\<lambda>cl p. Inr ()),
      files_get_metadata = (\<lambda>cl p. Inr [(''path'', Str p)]),
      files_get_temporary_link = (\<lambda>cl p. Inr (''https://dl.example'' @ p)),
      files_download = (\<lambda>cl p. Inr ''hello''),
      files_upload = (\<lambda>cl b p. Inr ()),
      files_upload_session_start = (\<lambda>cl b. Inr ''session-1''),
      files_upload_session_append_v2 = (\<lambda>cl b cur. Inr ()),
      files_upload_session_finish = (\<lambda>cl b cur com. Inr ())\<rparr>"

definition answering :: "(error + metadata) \<Rightarrow> remote" where
  "answering r = accepting\<lparr>files_get_metadata := (\<lambda>cl p. r)\<rparr>"

definition sample_storage :: "string \<Rightarrow> storage" where
  "sample_storage root = \<lparr>root_path = Some root, client = Dropbox ''token''\<rparr>"

definition folder_a :: metadata where
  "folder_a =
     [(''contents'',
       Children [\<lparr>entry_path = ''/a/b.txt'', entry_is_dir = False\<rparr>,
                 \<lparr>entry_path = ''/a/c'', entry_is_dir = True\<rparr>])]"

definition stamped :: "string \<Rightarrow> string \<Rightarrow> metadata" where
  "stamped modified client_mtime =
     [(''modified'', Str modified), (''client_mtime'', Str client_mtime)]"

definition sample_content :: "nat \<Rightarrow> content" where
  "sample_content n =
     \<lparr>content_size = n, content_data = replicate n CHR ''x'', content_pos = 0,
      content_closed = False\<rparr>"

section \<open>Properties\<close>

subsection \<open>Shared facts\<close>

declare str_replace.simps [simp del]

lemma py_or_None [simp]: "py_or None b = b"
  by (simp add: py_or_def truthy_def)

lemma full_path_sample:
  "full_path ''/'' (sample_storage ''/dir'') ''a.txt'' = Inr ''/dir/a.txt''"
  by code_simp

lemma file_of_cached:
  "file_cache g = Some b \<Longrightarrow> file_of api g calls = (calls, g, Inr b)"
  by (simp add: file_of_def)

lemma read_file_times_cached:
  "file_cache g = Some b \<Longrightarrow> read_file_times n api g calls = (calls, g)"
  by (induction n) (simp_all add: file_of_cached)

subsection \<open>The upload loop\<close>

text \<open>
  On a well-behaved content the loop returns, whatever the service answers; when the
  service accepts the calls, the loop makes exactly the calls of the spec's algorithm
  and leaves the position at the end of the content.
\<close>

declare spec_session_calls.simps [simp del]

lemma CHUNK_SIZE_pos: "0 < CHUNK_SIZE"
  by (simp add: CHUNK_SIZE_def)

lemma read_chunk:
  assumes "well_behaved c" and "content_pos c < content_size c"
  shows "content_read c (Some CHUNK_SIZE)
         = (take CHUNK_SIZE (drop (content_pos c) (content_data c)),
            c\<lparr>content_pos := content_pos c + min CHUNK_SIZE (content_size c - content_pos c)\<rparr>)"
  using assms by (simp add: content_read_def well_behaved_def Let_def min_def)

lemma upload_loop_returns:
  assumes "well_behaved c"
  shows "\<exists>r. upload_loop api cl com c cur calls = Some r"
  using assms
proof (induction "content_size c - content_pos c" arbitrary: c cur calls rule: less_induct)
  case less
  show ?case
  proof (cases "content_pos c < content_size c")
    case False
    then show ?thesis
      by (subst upload_loop.simps) (simp add: content_tell_def)
  next
    case True
    define c' where
      "c' = c\<lparr>content_pos := content_pos c + min CHUNK_SIZE (content_size c - content_pos c)\<rparr>"
    have rd: "content_read c (Some CHUNK_SIZE)
        = (take CHUNK_SIZE (drop (content_pos c) (content_data c)), c')"
      unfolding c'_def using less.prems True by (rule read_chunk)
    have wb: "well_behaved c'"
      using less.prems by (simp add: c'_def well_behaved_def)
    have smaller: "content_size c' - content_pos c' < content_size c - content_pos c"
      using True CHUNK_SIZE_pos by (auto simp: c'_def min_def)
    have ih: "\<exists>r. upload_loop api cl com c' cur' calls' = Some r" for cur' calls'
      using less.hyps [OF smaller wb] .
    show ?thesis
      using True ih
      by (subst upload_loop.simps) (auto simp: content_tell_def rd Let_def split: sum.splits)
  qed
qed

lemma upload_loop_calls:
  assumes "session_accepted api cl" and "well_behaved c" and "content_pos c \<le> content_size c"
  shows "upload_loop api cl com c \<lparr>session_id = sid, offset = content_pos c\<rparr> calls
         = Some (calls @ spec_session_calls sid com (content_pos c)
                           (drop (content_pos c) (content_data c)),
                 c\<lparr>content_pos := content_size c\<rparr>, Inr ())"
  using assms(2,3)
proof (induction "content_size c - content_pos c" arbitrary: c calls rule: less_induct)
  case less
  have len: "length (drop (content_pos c) (content_data c)) = content_size c - content_pos c"
    using less.prems by (simp add: well_behaved_def)
  show ?case
  proof (cases "content_pos c < content_size c")
    case False
    then have "content_pos c = content_size c"
      using less.prems by simp
    moreover have "drop (content_pos c) (content_data c) = []"
      using len False by simp
    ultimately show ?thesis
      by (subst upload_loop.simps, subst spec_session_calls.simps) (simp add: content_tell_def)
  next
    case True
    define c' where
      "c' = c\<lparr>content_pos := content_pos c + min CHUNK_SIZE (content_size c - content_pos c)\<rparr>"
    have rd: "content_read c (Some CHUNK_SIZE)
        = (take CHUNK_SIZE (drop (content_pos c) (content_data c)), c')"
      unfolding c'_def using less.prems(1) True by (rule read_chunk)
    have wb: "well_behaved c'"
      using less.prems by (simp add: c'_def well_behaved_def)
    have le: "content_pos c' \<le> content_size c'"
      using True by (auto simp: c'_def min_def)
    have smaller: "content_size c' - content_pos c' < content_size c - content_pos c"
      using True CHUNK_SIZE_pos by (auto simp: c'_def min_def)
    note ih = less.hyps [OF smaller wb le]
    have nonempty: "drop (content_pos c) (content_data c) \<noteq> []"
      using len True by auto
    show ?thesis
    proof (cases "content_size c - content_pos c \<le> CHUNK_SIZE")
      case last_chunk: True
      have pos': "content_pos c' = content_size c'" and same: "c'\<lparr>content_pos := content_size c'\<rparr> = c'"
        "c' = c\<lparr>content_pos := content_size c\<rparr>"
        using last_chunk True by (auto simp: c'_def min_def)
      have stop: "upload_loop api cl com c' cur' calls' = Some (calls', c', Inr ())" for cur' calls'
        by (subst upload_loop.simps) (simp add: content_tell_def pos')
      have fin: "files_upload_session_finish api cl b cur' com = Inr ()" for b cur'
        using assms(1) by (simp add: session_accepted_def)
      show ?thesis
        using True last_chunk nonempty len
        apply (subst upload_loop.simps)
        apply (subst spec_session_calls.simps)
        apply (simp add: content_tell_def rd fin stop Let_def)
        apply (simp add: same(2) [symmetric])
        done
    next
      case more: False
      have pos': "content_pos c' = content_pos c + CHUNK_SIZE" and size': "content_size c' = content_size c"
        and data': "content_data c' = content_data c"
        using more by (auto simp: c'_def min_def)
      have app: "files_upload_session_append_v2 api cl b cur' = Inr ()" for b cur'
        using assms(1) by (simp add: session_accepted_def)
      have final: "c'\<lparr>content_pos := content_size c\<rparr> = c\<lparr>content_pos := content_size c\<rparr>"
        by (simp add: c'_def)
      show ?thesis
        using True more nonempty len ih [of "calls @ [SessionAppend (take CHUNK_SIZE (drop (content_pos c) (content_data c))) \<lparr>session_id = sid, offset = content_pos c\<rparr>]"]
        apply (subst upload_loop.simps)
        apply (subst spec_session_calls.simps)
        apply (simp add: content_tell_def rd app pos' size' data' final add.commute Let_def)
        done
    qed
  qed
qed

lemma spec_session_calls_none [simp]: "spec_session_calls sid com off [] = []"
  by (subst spec_session_calls.simps) simp

lemma spec_session_calls_finish:
  "rest \<noteq> [] \<Longrightarrow> length rest \<le> CHUNK_SIZE \<Longrightarrow>
   spec_session_calls sid com off rest = [SessionFinish rest \<lparr>session_id = sid, offset = off\<rparr> com]"
  by (subst spec_session_calls.simps) simp

lemma spec_session_calls_append:
  "CHUNK_SIZE < length rest \<Longrightarrow>
   spec_session_calls sid com off rest
   = SessionAppend (take CHUNK_SIZE rest) \<lparr>session_id = sid, offset = off\<rparr>
       # spec_session_calls sid com (off + CHUNK_SIZE) (drop CHUNK_SIZE rest)"
  by (subst spec_session_calls.simps) auto

lemma spec_session_calls_payload:
  "concat (map payload (spec_session_calls sid com off rest)) = rest"
proof (induction sid com off rest rule: spec_session_calls.induct)
  case (1 sid com off rest)
  then show ?case
    by (subst spec_session_calls.simps) simp
qed

lemma chunk_count_step:
  assumes "CHUNK_SIZE < n"
  shows "(n - 1) div CHUNK_SIZE = Suc ((n - CHUNK_SIZE - 1) div CHUNK_SIZE)"
proof -
  have "n - 1 = (n - CHUNK_SIZE - 1) + CHUNK_SIZE"
    using assms by simp
  then have "(n - 1) div CHUNK_SIZE = (n - CHUNK_SIZE - 1) div CHUNK_SIZE + 1"
    using CHUNK_SIZE_pos by (simp only: div_add_self2)
  then show ?thesis by simp
qed

lemma chunk_count_last:
  assumes "0 < n" and "n \<le> CHUNK_SIZE"
  shows "(n - 1) div CHUNK_SIZE = 0"
  using assms by simp

lemma spec_session_calls_counts:
  "count is_finish (spec_session_calls sid com off rest) = (if rest = [] then 0 else 1)
   \<and> count is_start (spec_session_calls sid com off rest) = 0
   \<and> count is_upload (spec_session_calls sid com off rest) = 0
   \<and> count is_append (spec_session_calls sid com off rest) = (length rest - 1) div CHUNK_SIZE"
proof (induction sid com off rest rule: spec_session_calls.induct)
  case (1 sid com off rest)
  show ?case
  proof (cases "rest = []")
    case True
    then show ?thesis by (simp add: count_def)
  next
    case ne: False
    show ?thesis
    proof (cases "length rest \<le> CHUNK_SIZE")
      case True
      with ne have "(length rest - 1) div CHUNK_SIZE = 0"
        by (intro chunk_count_last) simp_all
      with ne True show ?thesis
        by (simp add: spec_session_calls_finish count_def)
    next
      case False
      then have big: "CHUNK_SIZE < length rest" by simp
      then have ne': "drop CHUNK_SIZE rest \<noteq> []" by simp
      from "1.IH" [OF ne False] ne ne' chunk_count_step [OF big] show ?thesis
        by (simp add: spec_session_calls_append [OF big] count_def)
    qed
  qed
qed

lemma spec_session_calls_last:
  assumes "rest \<noteq> []"
  shows "\<exists>b cur. last (spec_session_calls sid com off rest) = SessionFinish b cur com
           \<and> spec_session_calls sid com off rest \<noteq> []
           \<and> b \<noteq> [] \<and> length b \<le> CHUNK_SIZE
           \<and> (CHUNK_SIZE dvd length rest \<longrightarrow> length b = CHUNK_SIZE)
           \<and> offset cur + length b = off + length rest"
  using assms
proof (induction sid com off rest rule: spec_session_calls.induct)
  case (1 sid com off rest)
  show ?case
  proof (cases "length rest \<le> CHUNK_SIZE")
    case True
    have "CHUNK_SIZE dvd length rest \<Longrightarrow> length rest = CHUNK_SIZE"
      using True "1.prems" by (simp add: dvd_imp_le le_antisym)
    with True "1.prems" show ?thesis
      by (simp add: spec_session_calls_finish)
  next
    case False
    then have big: "CHUNK_SIZE < length rest" by simp
    then have ne: "drop CHUNK_SIZE rest \<noteq> []"
      by simp
    have dv: "CHUNK_SIZE dvd length rest \<Longrightarrow> CHUNK_SIZE dvd length (drop CHUNK_SIZE rest)"
      using big by simp
    from "1.IH" [OF "1.prems" False ne] obtain b cur where
      ih: "last (spec_session_calls sid com (off + CHUNK_SIZE) (drop CHUNK_SIZE rest))
             = SessionFinish b cur com"
        "spec_session_calls sid com (off + CHUNK_SIZE) (drop CHUNK_SIZE rest) \<noteq> []"
        "b \<noteq> []" "length b \<le> CHUNK_SIZE"
        "CHUNK_SIZE dvd length (drop CHUNK_SIZE rest) \<longrightarrow> length b = CHUNK_SIZE"
        "offset cur + length b = off + CHUNK_SIZE + length (drop CHUNK_SIZE rest)"
      by blast
    have total: "off + CHUNK_SIZE + length (drop CHUNK_SIZE rest) = off + length rest"
      using big by simp
    show ?thesis
      using ih(1-4) ih(5) dv ih(6) [unfolded total]
      by (simp only: spec_session_calls_append [OF big] last.simps) auto
  qed
qed

lemma chunked_upload_returns:
  assumes "well_behaved c"
  shows "\<exists>r. chunked_upload api self c dest calls = Some r"
proof -
  obtain chunk c' where rd: "content_read c (Some CHUNK_SIZE) = (chunk, c')"
    by (cases "content_read c (Some CHUNK_SIZE)")
  have "well_behaved c'"
    using assms rd by (auto simp: content_read_def well_behaved_def Let_def)
  then have "\<exists>r. upload_loop api cl com c' cur calls' = Some r" for cl com cur calls'
    by (rule upload_loop_returns)
  then show ?thesis
    by (auto simp: chunked_upload_def rd Let_def split: sum.splits)
qed

lemma chunked_upload_calls:
  assumes "session_accepted api (client self)" and "well_behaved c" and "content_pos c = 0"
    and "CHUNK_SIZE < content_size c"
    and "files_upload_session_start api (client self) (take CHUNK_SIZE (content_data c)) = Inr sid"
  shows "chunked_upload api self c dest calls
         = Some (calls @ SessionStart (take CHUNK_SIZE (content_data c))
                   # spec_session_calls sid \<lparr>commit_path = dest\<rparr> CHUNK_SIZE
                       (drop CHUNK_SIZE (content_data c)),
                 c\<lparr>content_pos := content_size c\<rparr>, Inr ())"
proof -
  define c' where "c' = c\<lparr>content_pos := CHUNK_SIZE\<rparr>"
  have rd: "content_read c (Some CHUNK_SIZE) = (take CHUNK_SIZE (content_data c), c')"
    using read_chunk [OF assms(2)] assms(3,4) by (simp add: c'_def min_def)
  have wb: "well_behaved c'"
    using assms(2) by (simp add: c'_def well_behaved_def)
  have le: "content_pos c' \<le> content_size c'"
    using assms(4) by (simp add: c'_def)
  have "upload_loop api (client self) \<lparr>commit_path = dest\<rparr> c'
          \<lparr>session_id = sid, offset = content_pos c'\<rparr>
          (calls @ [SessionStart (take CHUNK_SIZE (content_data c))])
        = Some ((calls @ [SessionStart (take CHUNK_SIZE (content_data c))])
                  @ spec_session_calls sid \<lparr>commit_path = dest\<rparr> (content_pos c')
                      (drop (content_pos c') (content_data c')),
                c'\<lparr>content_pos := content_size c'\<rparr>, Inr ())"
    using assms(1) wb le by (rule upload_loop_calls)
  then show ?thesis
    by (simp add: chunked_upload_def rd assms(5) content_tell_def c'_def)
qed

lemma spec_session_calls_length:
  "length (spec_session_calls sid com off rest)
   = (if rest = [] then 0 else Suc ((length rest - 1) div CHUNK_SIZE))"
proof (induction sid com off rest rule: spec_session_calls.induct)
  case (1 sid com off rest)
  show ?case
  proof (cases "rest = []")
    case True
    then show ?thesis by simp
  next
    case ne: False
    show ?thesis
    proof (cases "length rest \<le> CHUNK_SIZE")
      case True
      with ne have "(length rest - 1) div CHUNK_SIZE = 0"
        by (intro chunk_count_last) simp_all
      with ne True show ?thesis
        by (simp add: spec_session_calls_finish)
    next
      case False
      then have big: "CHUNK_SIZE < length rest" by simp
      then have ne': "drop CHUNK_SIZE rest \<noteq> []" by simp
      from "1.IH" [OF ne False] ne ne' chunk_count_step [OF big] show ?thesis
        by (simp add: spec_session_calls_append [OF big])
    qed
  qed
qed

lemma save_small:
  assumes "full_path cwd self name = Inr p" and "content_size c \<le> CHUNK_SIZE"
  shows "\<exists>c' r. save cwd api self name c calls
                  = Some (calls @ [FilesUpload (content_data c) p], c', r)
               \<and> (files_upload api (client self) (content_data c) p = Inr () \<longrightarrow>
                    r = Inr name \<and> content_closed c')"
  using assms
  by (auto simp: save_def content_open_def content_read_def content_close_def Let_def
      split: sum.splits)

lemma save_large:
  assumes "full_path cwd self name = Inr p" and "CHUNK_SIZE < content_size c"
    and "well_behaved c" and "session_accepted api (client self)"
  shows "\<exists>sid. save cwd api self name c calls
           = Some (calls @ SessionStart (take CHUNK_SIZE (content_data c))
                     # spec_session_calls sid \<lparr>commit_path = p\<rparr> CHUNK_SIZE
                         (drop CHUNK_SIZE (content_data c)),
                   c\<lparr>content_pos := content_size c, content_closed := True\<rparr>, Inr name)"
proof -
  obtain sid where
    sid: "files_upload_session_start api (client self) (take CHUNK_SIZE (content_data c)) = Inr sid"
    using assms(4) unfolding session_accepted_def by blast
  let ?c = "content_open c"
  have "chunked_upload api self ?c p calls
        = Some (calls @ SessionStart (take CHUNK_SIZE (content_data ?c))
                  # spec_session_calls sid \<lparr>commit_path = p\<rparr> CHUNK_SIZE
                      (drop CHUNK_SIZE (content_data ?c)),
                ?c\<lparr>content_pos := content_size ?c\<rparr>, Inr ())"
    using assms(2,3,4) sid
    by (intro chunked_upload_calls) (simp_all add: content_open_def well_behaved_def)
  then show ?thesis
    using assms(1,2)
    by (intro exI [of _ sid]) (simp add: save_def content_open_def content_close_def Let_def)
qed

lemma accepting_accepted: "session_accepted accepting cl"
  by (simp add: session_accepted_def accepting_def)

lemma sample_content_facts:
  "well_behaved (sample_content n)" "content_size (sample_content n) = n"
  "content_data (sample_content n) = replicate n CHR ''x''" "content_tell (sample_content n) = 0"
  by (simp_all add: well_behaved_def sample_content_def content_tell_def)

lemma two_chunks:
  "CHUNK_SIZE < 2 * CHUNK_SIZE" "CHUNK_SIZE dvd 2 * CHUNK_SIZE" "\<not> 2 * CHUNK_SIZE \<le> CHUNK_SIZE"
  "(2 * CHUNK_SIZE - Suc 0) div CHUNK_SIZE = Suc 0" "5 \<le> CHUNK_SIZE"
  by (simp_all add: CHUNK_SIZE_def)

subsection \<open>Saving\<close>

text \<open>
  C1. For a content saved under a name that resolves: if its size is at most 4 MiB, the
  only call is one single-shot upload of the whole payload (no session call). If its size
  is more than 4 MiB, the content is well behaved and the service accepts the session's
  calls, the calls are exactly one session-start, then zero or more session-appends, then
  exactly one session-finish, and no single-shot upload; the chunks sent add up to the
  content, byte for byte; and when the size is a multiple of the chunk size the last
  chunk, a full one, is sent by session-finish.
\<close>

theorem save_upload_calls:
  assumes "full_path cwd self name = Inr p"
  shows "(content_size c \<le> CHUNK_SIZE \<longrightarrow>
            (\<exists>c' r. save cwd api self name c calls
                       = Some (calls @ [FilesUpload (content_data c) p], c', r)
                    \<and> (files_upload api (client self) (content_data c) p = Inr () \<longrightarrow>
                         r = Inr name \<and> content_closed c')))
         \<and> (CHUNK_SIZE < content_size c \<and> well_behaved c \<and> session_accepted api (client self) \<longrightarrow>
            (\<exists>made c'. save cwd api self name c calls = Some (calls @ made, c', Inr name)
               \<and> count is_upload made = 0
               \<and> count is_start made = 1
               \<and> count is_finish made = 1
               \<and> count is_append made = (content_size c - 1) div CHUNK_SIZE - 1
               \<and> length made = count is_start made + count is_append made + count is_finish made
               \<and> is_start (hd made) \<and> is_finish (last made)
               \<and> concat (map payload made) = content_data c
               \<and> sum_list (map (length \<circ> payload) made) = content_size c
               \<and> (CHUNK_SIZE dvd content_size c \<longrightarrow> length (payload (last made)) = CHUNK_SIZE)
               \<and> content_tell c' = content_size c \<and> content_closed c'))"
proof (intro conjI impI)
  assume "content_size c \<le> CHUNK_SIZE"
  with assms show "\<exists>c' r. save cwd api self name c calls
                       = Some (calls @ [FilesUpload (content_data c) p], c', r)
                    \<and> (files_upload api (client self) (content_data c) p = Inr () \<longrightarrow>
                         r = Inr name \<and> content_closed c')"
    by (rule save_small)
next
  assume large: "CHUNK_SIZE < content_size c \<and> well_behaved c \<and> session_accepted api (client self)"
  then have big: "CHUNK_SIZE < content_size c" and wb: "well_behaved c"
    and ok: "session_accepted api (client self)"
    by simp_all
  have len: "length (content_data c) = content_size c"
    using wb by (simp add: well_behaved_def)
  let ?rest = "drop CHUNK_SIZE (content_data c)"
  have rest: "?rest \<noteq> []" and rest_len: "length ?rest = content_size c - CHUNK_SIZE"
    using big len by simp_all
  from save_large [OF assms big wb ok] obtain sid where
    saved: "save cwd api self name c calls
           = Some (calls @ SessionStart (take CHUNK_SIZE (content_data c))
                     # spec_session_calls sid \<lparr>commit_path = p\<rparr> CHUNK_SIZE ?rest,
                   c\<lparr>content_pos := content_size c, content_closed := True\<rparr>, Inr name)"
    by blast
  let ?tail = "spec_session_calls sid \<lparr>commit_path = p\<rparr> CHUNK_SIZE ?rest"
  let ?made = "SessionStart (take CHUNK_SIZE (content_data c)) # ?tail"
  note counts = spec_session_calls_counts [of sid "\<lparr>commit_path = p\<rparr>" CHUNK_SIZE ?rest]
  from spec_session_calls_last [OF rest, of sid "\<lparr>commit_path = p\<rparr>" CHUNK_SIZE]
  obtain b cur where
    lst: "last ?tail = SessionFinish b cur \<lparr>commit_path = p\<rparr>" "?tail \<noteq> []"
      "CHUNK_SIZE dvd length ?rest \<longrightarrow> length b = CHUNK_SIZE"
    by blast
  have appends: "count is_append ?made = (content_size c - 1) div CHUNK_SIZE - 1"
    using counts chunk_count_step [OF big] by (simp add: count_def len)
  have total: "length ?made = count is_start ?made + count is_append ?made + count is_finish ?made"
    using counts rest spec_session_calls_length [of sid "\<lparr>commit_path = p\<rparr>" CHUNK_SIZE ?rest]
    by (simp add: count_def len)
  have pay: "concat (map payload ?made) = content_data c"
    by (simp add: spec_session_calls_payload)
  have "sum_list (map (length \<circ> payload) ?made) = length (concat (map payload ?made))"
    by (simp add: length_concat)
  then have bytes: "sum_list (map (length \<circ> payload) ?made) = content_size c"
    by (simp only: pay len)
  have dv: "CHUNK_SIZE dvd content_size c \<Longrightarrow> CHUNK_SIZE dvd length ?rest"
    using big by (simp add: len)
  have "count is_upload ?made = 0 \<and> count is_start ?made = 1 \<and> count is_finish ?made = 1"
    using counts rest by (simp add: count_def)
  moreover have "is_start (hd ?made) \<and> is_finish (last ?made)"
    using lst by simp
  moreover have "CHUNK_SIZE dvd content_size c \<longrightarrow> length (payload (last ?made)) = CHUNK_SIZE"
    using lst dv by simp
  ultimately show "\<exists>made c'. save cwd api self name c calls = Some (calls @ made, c', Inr name)
               \<and> count is_upload made = 0
               \<and> count is_start made = 1
               \<and> count is_finish made = 1
               \<and> count is_append made = (content_size c - 1) div CHUNK_SIZE - 1
               \<and> length made = count is_start made + count is_append made + count is_finish made
               \<and> is_start (hd made) \<and> is_finish (last made)
               \<and> concat (map payload made) = content_data c
               \<and> sum_list (map (length \<circ> payload) made) = content_size c
               \<and> (CHUNK_SIZE dvd content_size c \<longrightarrow> length (payload (last made)) = CHUNK_SIZE)
               \<and> content_tell c' = content_size c \<and> content_closed c'"
    using saved appends total pay bytes
    by (intro exI [of _ ?made]
        exI [of _ "c\<lparr>content_pos := content_size c, content_closed := True\<rparr>"])
      (simp only: content_tell_def, simp)
qed

theorem save_upload_calls_witness:
  "full_path ''/'' (sample_storage ''/dir'') ''a.txt'' = Inr ''/dir/a.txt''
   \<and> (\<exists>c' r. save ''/'' accepting (sample_storage ''/dir'') ''a.txt'' (sample_content 5) []
                 = Some ([FilesUpload (replicate 5 CHR ''x'') ''/dir/a.txt''], c', r)
              \<and> r = Inr ''a.txt'')
   \<and> CHUNK_SIZE < content_size (sample_content (2 * CHUNK_SIZE))
   \<and> well_behaved (sample_content (2 * CHUNK_SIZE))
   \<and> session_accepted accepting (client (sample_storage ''/dir''))
   \<and> (\<exists>made c'. save ''/'' accepting (sample_storage ''/dir'') ''a.txt''
                     (sample_content (2 * CHUNK_SIZE)) [] = Some (made, c', Inr ''a.txt'')
         \<and> count is_upload made = 0 \<and> count is_start made = 1 \<and> count is_finish made = 1
         \<and> count is_append made = 0 \<and> length made = 2
         \<and> is_finish (last made) \<and> length (payload (last made)) = CHUNK_SIZE
         \<and> sum_list (map (length \<circ> payload) made) = 2 * CHUNK_SIZE)"
proof -
  have up: "files_upload accepting cl b p = Inr ()" for cl b p
    by (simp add: accepting_def)
  from save_upload_calls [OF full_path_sample, of "sample_content 5" accepting "[]",
      THEN conjunct1]
  have small: "\<exists>c' r. save ''/'' accepting (sample_storage ''/dir'') ''a.txt'' (sample_content 5) []
                 = Some ([FilesUpload (replicate 5 CHR ''x'') ''/dir/a.txt''], c', r)
              \<and> r = Inr ''a.txt''"
    by (auto simp: sample_content_facts two_chunks up)
  from save_upload_calls [OF full_path_sample, of "sample_content (2 * CHUNK_SIZE)" accepting "[]",
      THEN conjunct2]
  have large: "\<exists>made c'. save ''/'' accepting (sample_storage ''/dir'') ''a.txt''
                     (sample_content (2 * CHUNK_SIZE)) [] = Some (made, c', Inr ''a.txt'')
         \<and> count is_upload made = 0 \<and> count is_start made = 1 \<and> count is_finish made = 1
         \<and> count is_append made = 0 \<and> length made = 2
         \<and> is_finish (last made) \<and> length (payload (last made)) = CHUNK_SIZE
         \<and> sum_list (map (length \<circ> payload) made) = 2 * CHUNK_SIZE"
    by (auto simp: sample_content_facts two_chunks accepting_accepted)
  show ?thesis
    using small large full_path_sample
    by (simp add: sample_content_facts two_chunks accepting_accepted)
qed

text \<open>
  C9. For a well-behaved content of more than 4 MiB, read from its start, the chunked
  upload returns, whatever the service answers; and when the service accepts the calls,
  all bytes of the content have been read at that point, the chunks sent are the
  content, and session-finish has been called exactly once.
\<close>

theorem chunked_upload_terminates:
  assumes "well_behaved c" and "content_tell c = 0" and "CHUNK_SIZE < content_size c"
  shows "(\<exists>r. chunked_upload api self c dest calls = Some r)
         \<and> (session_accepted api (client self) \<longrightarrow>
              (\<exists>made c'. chunked_upload api self c dest calls = Some (calls @ made, c', Inr ())
                 \<and> content_tell c' = content_size c
                 \<and> concat (map payload made) = content_data c
                 \<and> count is_finish made = 1))"
proof (intro conjI impI)
  show "\<exists>r. chunked_upload api self c dest calls = Some r"
    using assms(1) by (rule chunked_upload_returns)
next
  assume ok: "session_accepted api (client self)"
  then obtain sid where
    sid: "files_upload_session_start api (client self) (take CHUNK_SIZE (content_data c)) = Inr sid"
    unfolding session_accepted_def by blast
  have pos: "content_pos c = 0"
    using assms(2) by (simp add: content_tell_def)
  have rest: "drop CHUNK_SIZE (content_data c) \<noteq> []"
    using assms(1,3) by (simp add: well_behaved_def)
  let ?made = "SessionStart (take CHUNK_SIZE (content_data c))
      # spec_session_calls sid \<lparr>commit_path = dest\<rparr> CHUNK_SIZE (drop CHUNK_SIZE (content_data c))"
  have "chunked_upload api self c dest calls
        = Some (calls @ ?made, c\<lparr>content_pos := content_size c\<rparr>, Inr ())"
    using ok assms(1) pos assms(3) sid by (rule chunked_upload_calls)
  moreover have "concat (map payload ?made) = content_data c"
    by (simp add: spec_session_calls_payload)
  moreover have "count is_finish ?made = 1"
    using spec_session_calls_counts [of sid "\<lparr>commit_path = dest\<rparr>" CHUNK_SIZE
        "drop CHUNK_SIZE (content_data c)"] rest
    by (simp add: count_def)
  ultimately show "\<exists>made c'. chunked_upload api self c dest calls = Some (calls @ made, c', Inr ())
      \<and> content_tell c' = content_size c
      \<and> concat (map payload made) = content_data c
      \<and> count is_finish made = 1"
    by (intro exI [of _ ?made] exI [of _ "c\<lparr>content_pos := content_size c\<rparr>"])
      (simp add: content_tell_def)
qed

theorem chunked_upload_terminates_witness:
  "well_behaved (sample_content (2 * CHUNK_SIZE))
   \<and> content_tell (sample_content (2 * CHUNK_SIZE)) = 0
   \<and> CHUNK_SIZE < content_size (sample_content (2 * CHUNK_SIZE))
   \<and> session_accepted accepting (client (sample_storage ''/dir''))
   \<and> (\<exists>r. chunked_upload accepting (sample_storage ''/dir'') (sample_content (2 * CHUNK_SIZE))
             ''/dir/a.txt'' [] = Some r)
   \<and> (\<exists>made c'. chunked_upload accepting (sample_storage ''/dir'')
                     (sample_content (2 * CHUNK_SIZE)) ''/dir/a.txt'' [] = Some (made, c', Inr ())
         \<and> content_tell c' = 2 * CHUNK_SIZE \<and> count is_finish made = 1)"
  using chunked_upload_terminates [of "sample_content (2 * CHUNK_SIZE)" accepting
      "sample_storage ''/dir''" "''/dir/a.txt''" "[]"]
  by (auto simp: sample_content_facts two_chunks accepting_accepted)

subsection \<open>\<open>exists\<close>\<close>

text \<open>
  C10. For every name, \<open>exists\<close> returns false whenever the remote metadata call raises
  an API error of the class \<open>ApiError\<close>, whatever its kind (not found, permission denied
  or any other), and \<open>exists\<close> never passes an exception of that class on to its caller.
\<close>

theorem exists_false_on_api_error:
  "exists cwd api self name \<noteq> Inl (ApiError b)
   \<and> (full_path cwd self name = Inr p
        \<and> files_get_metadata api (client self) p = Inl (ApiError a)
      \<longrightarrow> exists cwd api self name = Inr False)"
  by (auto simp: exists_def split: sum.splits error.splits)

theorem exists_false_on_api_error_witness:
  "full_path ''/'' (sample_storage ''/dir'') ''a.txt'' = Inr ''/dir/a.txt''
   \<and> files_get_metadata (answering (Inl (ApiError PermissionDenied)))
        (client (sample_storage ''/dir'')) ''/dir/a.txt'' = Inl (ApiError PermissionDenied)
   \<and> exists ''/'' (answering (Inl (ApiError PermissionDenied))) (sample_storage ''/dir'') ''a.txt''
       = Inr False"
proof -
  have m: "files_get_metadata (answering (Inl (ApiError PermissionDenied)))
        (client (sample_storage ''/dir'')) ''/dir/a.txt'' = Inl (ApiError PermissionDenied)"
    by (simp add: answering_def)
  from exists_false_on_api_error [of "''/''" "answering (Inl (ApiError PermissionDenied))"
      "sample_storage ''/dir''" "''a.txt''" _ "''/dir/a.txt''" PermissionDenied]
    full_path_sample m
  show ?thesis by simp
qed

text \<open>
  An exception of the client that is not of the class \<open>ApiError\<close> is passed on, and so
  is the rejection of the name by \<open>safe_join\<close>.
\<close>

lemma exists_passes_other_errors:
  "full_path cwd self name = Inr p \<Longrightarrow>
   files_get_metadata api (client self) p = Inl (HttpError n) \<Longrightarrow>
   exists cwd api self name = Inl (HttpError n)"
  "full_path cwd self name = Inl SuspiciousFileOperation \<Longrightarrow>
   exists cwd api self name = Inl SuspiciousFileOperation"
  by (simp_all add: exists_def)

text \<open>
  C2. For every name whose path resolves, \<open>exists\<close> returns false (and does not raise)
  when the remote metadata call raises a not-found API error, and returns true whenever
  the remote metadata fetch succeeds. A fetch that succeeds returns the metadata of an
  entry, a dictionary that has fields (\<open>md \<noteq> []\<close>), and the source returns
  \<open>bool(metadata)\<close>, which is true of every such dictionary.
\<close>

theorem exists_true_on_metadata:
  assumes "full_path cwd self name = Inr p"
  shows "(files_get_metadata api (client self) p = Inl (ApiError NotFound)
            \<longrightarrow> exists cwd api self name = Inr False)
         \<and> (files_get_metadata api (client self) p = Inr md \<and> md \<noteq> []
            \<longrightarrow> exists cwd api self name = Inr True)"
  using assms by (simp add: exists_def)

theorem exists_true_on_metadata_witness:
  "full_path ''/'' (sample_storage ''/dir'') ''a.txt'' = Inr ''/dir/a.txt''
   \<and> files_get_metadata (answering (Inl (ApiError NotFound)))
        (client (sample_storage ''/dir'')) ''/dir/a.txt'' = Inl (ApiError NotFound)
   \<and> exists ''/'' (answering (Inl (ApiError NotFound))) (sample_storage ''/dir'') ''a.txt''
       = Inr False
   \<and> files_get_metadata (answering (Inr [(''bytes'', Num 3)]))
        (client (sample_storage ''/dir'')) ''/dir/a.txt'' = Inr [(''bytes'', Num 3)]
   \<and> [(''bytes'', Num 3)] \<noteq> ([] :: metadata)
   \<and> exists ''/'' (answering (Inr [(''bytes'', Num 3)])) (sample_storage ''/dir'') ''a.txt''
       = Inr True"
  using exists_true_on_metadata [OF full_path_sample, of "answering (Inl (ApiError NotFound))"]
    exists_true_on_metadata [OF full_path_sample, of "answering (Inr [(''bytes'', Num 3)])"
      "[(''bytes'', Num 3)]"]
    full_path_sample
  by (simp add: answering_def)

subsection \<open>\<open>listdir\<close>\<close>

lemma replace_first_prefix: "replace_first old [] (old @ s) = s"
proof (cases "old @ s")
  case Nil
  then show ?thesis by simp
next
  case (Cons a list)
  have "prefix old (a # list)"
    unfolding Cons [symmetric] by simp
  then have "replace_first old [] (a # list) = drop (length old) (a # list)"
    by simp
  also have "\<dots> = s"
    unfolding Cons [symmetric] by simp
  finally show ?thesis
    by (simp only: Cons)
qed

lemma replace_first_absent: "c \<notin> set s \<Longrightarrow> replace_first [c] [] s = s"
  by (induction s) auto

lemma child_name_strips:
  "entry_path e = fp @ ''/'' @ n \<Longrightarrow> child_name fp e = n"
  using replace_first_prefix [of "''/''" n] replace_first_prefix [of fp "''/'' @ n"]
  by (simp add: child_name_def)

lemma child_name_of_root:
  "entry_path e = ''/'' @ n \<Longrightarrow> CHR ''/'' \<notin> set n \<Longrightarrow> child_name ''/'' e = n"
  using replace_first_prefix [of "''/''" n] replace_first_absent [of "CHR ''/''" n]
  by (simp add: child_name_def)

lemma listdir_loop_partition:
  "listdir_loop fp es (ds, fs)
   = (ds @ map (child_name fp) (filter entry_is_dir es),
      fs @ map (child_name fp) (filter (\<lambda>e. \<not> entry_is_dir e) es))"
  by (induction es arbitrary: ds fs) simp_all

lemma full_path_root_a: "full_path ''/'' (sample_storage ''/'') ''/a'' = Inr ''/a''"
  by code_simp

text \<open>
  C4. \<open>listdir\<close> splits the children that the remote metadata call reports into the
  directories and the files, each in the order reported, and names each child by
  removing the queried (resolved) path and then one separator from the child's reported
  path: a child reported as the queried path, a separator and a name is listed under
  that name, and so is a child of the root folder. In particular \<open>listdir("/a")\<close> on a
  folder with the file \<open>/a/b.txt\<close> and the directory \<open>/a/c\<close> returns the directories
  \<open>["c"]\<close> and the files \<open>["b.txt"]\<close>.
\<close>

theorem listdir_partitions_children:
  assumes "full_path cwd self path = Inr fp"
    and "files_get_metadata api (client self) fp = Inr md"
    and "map_of md ''contents'' = Some (Children es)"
  shows "listdir cwd api self path
           = Inr (map (child_name fp) (filter entry_is_dir es),
                  map (child_name fp) (filter (\<lambda>e. \<not> entry_is_dir e) es))
         \<and> (\<forall>e n. entry_path e = fp @ ''/'' @ n \<longrightarrow> child_name fp e = n)
         \<and> (\<forall>e n. fp = ''/'' \<and> entry_path e = ''/'' @ n \<and> CHR ''/'' \<notin> set n
                \<longrightarrow> child_name fp e = n)"
  using assms
  by (auto simp: listdir_def listdir_loop_partition child_name_strips child_name_of_root
      simp del: append.simps)

theorem listdir_partitions_children_witness:
  "full_path ''/'' (sample_storage ''/'') ''/a'' = Inr ''/a''
   \<and> files_get_metadata (answering (Inr folder_a)) (client (sample_storage ''/'')) ''/a''
       = Inr folder_a
   \<and> listdir ''/'' (answering (Inr folder_a)) (sample_storage ''/'') ''/a''
       = Inr ([''c''], [''b.txt''])"
proof -
  have m: "files_get_metadata (answering (Inr folder_a)) (client (sample_storage ''/'')) ''/a''
       = Inr folder_a"
    by (simp add: answering_def)
  have k: "map_of folder_a ''contents''
       = Some (Children [\<lparr>entry_path = ''/a/b.txt'', entry_is_dir = False\<rparr>,
                 \<lparr>entry_path = ''/a/c'', entry_is_dir = True\<rparr>])"
    by (simp add: folder_a_def)
  have names: "child_name ''/a'' \<lparr>entry_path = ''/a/b.txt'', entry_is_dir = False\<rparr> = ''b.txt''"
    "child_name ''/a'' \<lparr>entry_path = ''/a/c'', entry_is_dir = True\<rparr> = ''c''"
    by (simp_all add: child_name_def)
  from listdir_partitions_children [OF full_path_root_a m k] full_path_root_a m names
  show ?thesis by simp
qed

subsection \<open>\<open>modified_time\<close> and \<open>accessed_time\<close>\<close>

lemma strptime_literal:
  "strptime ''Mon, 01 Jan 2024 12:00:00 +0000'' DATE_FORMAT
   = Inr \<lparr>dt_year = 2024, dt_month = 1, dt_day = 1, dt_hour = 12, dt_minute = 0, dt_second = 0\<rparr>"
  by code_simp

lemma strptime_malformed:
  "strptime ''2024-01-01T12:00:00Z'' DATE_FORMAT = Inl ValueError"
  by code_simp

text \<open>
  C7. \<open>modified_time\<close> parses the string under the key \<open>modified\<close>, and \<open>accessed_time\<close>
  the string under \<open>client_mtime\<close>, with the one fixed format \<open>DATE_FORMAT\<close>; the string
  \<open>Mon, 01 Jan 2024 12:00:00 +0000\<close> parses to noon of 1 January 2024; and whenever the
  string does not parse, the parse error (\<open>ValueError\<close>) is what the two operations raise:
  no default is returned.
\<close>

theorem timestamps_parsed_with_fixed_format:
  assumes "full_path cwd self name = Inr p"
    and "files_get_metadata api (client self) p = Inr md"
  shows "(map_of md ''modified'' = Some (Str s) \<longrightarrow>
            modified_time cwd api self name = strptime s DATE_FORMAT)
         \<and> (map_of md ''client_mtime'' = Some (Str s) \<longrightarrow>
            accessed_time cwd api self name = strptime s DATE_FORMAT)
         \<and> strptime ''Mon, 01 Jan 2024 12:00:00 +0000'' DATE_FORMAT
             = Inr \<lparr>dt_year = 2024, dt_month = 1, dt_day = 1,
                    dt_hour = 12, dt_minute = 0, dt_second = 0\<rparr>
         \<and> (strptime s DATE_FORMAT = Inl e \<longrightarrow>
              e = ValueError
              \<and> (map_of md ''modified'' = Some (Str s) \<longrightarrow>
                   modified_time cwd api self name = Inl ValueError)
              \<and> (map_of md ''client_mtime'' = Some (Str s) \<longrightarrow>
                   accessed_time cwd api self name = Inl ValueError))"
  using assms strptime_literal
  by (auto simp: modified_time_def accessed_time_def strptime_def Let_def
      split: list.splits if_splits prod.splits)

theorem timestamps_parsed_with_fixed_format_witness:
  "modified_time ''/'' (answering (Inr (stamped ''Mon, 01 Jan 2024 12:00:00 +0000''
       ''2024-01-01T12:00:00Z''))) (sample_storage ''/dir'') ''a.txt''
     = Inr \<lparr>dt_year = 2024, dt_month = 1, dt_day = 1, dt_hour = 12, dt_minute = 0, dt_second = 0\<rparr>
   \<and> strptime ''2024-01-01T12:00:00Z'' DATE_FORMAT = Inl ValueError
   \<and> accessed_time ''/'' (answering (Inr (stamped ''Mon, 01 Jan 2024 12:00:00 +0000''
       ''2024-01-01T12:00:00Z''))) (sample_storage ''/dir'') ''a.txt''
     = Inl ValueError"
proof -
  let ?md = "stamped ''Mon, 01 Jan 2024 12:00:00 +0000'' ''2024-01-01T12:00:00Z''"
  have m: "files_get_metadata (answering (Inr ?md)) (client (sample_storage ''/dir'')) ''/dir/a.txt''
       = Inr ?md"
    by (simp add: answering_def)
  have k: "map_of ?md ''modified'' = Some (Str ''Mon, 01 Jan 2024 12:00:00 +0000'')"
    "map_of ?md ''client_mtime'' = Some (Str ''2024-01-01T12:00:00Z'')"
    by (simp_all add: stamped_def)
  from timestamps_parsed_with_fixed_format [OF full_path_sample m,
      of "''Mon, 01 Jan 2024 12:00:00 +0000''"]
    timestamps_parsed_with_fixed_format [OF full_path_sample m, of "''2024-01-01T12:00:00Z''"
      ValueError]
    k strptime_malformed strptime_literal
  show ?thesis by simp
qed

subsection \<open>The constructors\<close>

text \<open>
  C6. The team constructor raises a configuration error whenever the team namespace or
  the team admin identifier is absent from both the arguments and the settings, whether
  or not the access token is present; the base constructor raises a configuration error
  whenever the access token is absent.
\<close>

theorem constructors_require_configuration:
  "(absent conf team_namespace ''DROPBOX_TEAM_NAMESPACE'' \<or> absent conf team_admin ''DROPBOX_TEAM_ADMIN''
      \<longrightarrow> (\<exists>msg. DropBoxTeamStorage_init conf tok root hdrs team_namespace team_admin
                 = Inl (ImproperlyConfigured msg)))
   \<and> (absent conf tok ''DROPBOX_OAUTH2_TOKEN''
      \<longrightarrow> (\<exists>msg. DropBoxStorage_init conf tok root = Inl (ImproperlyConfigured msg)))"
  by (auto simp: absent_def DropBoxTeamStorage_init_def DropBoxStorage_init_def Let_def
      py_or_def split: option.splits)

theorem constructors_require_configuration_witness:
  "absent no_settings None ''DROPBOX_TEAM_ADMIN''
   \<and> (\<exists>msg. DropBoxTeamStorage_init no_settings (Some ''token'') None None (Some ''1234'') None
           = Inl (ImproperlyConfigured msg))
   \<and> absent no_settings None ''DROPBOX_OAUTH2_TOKEN''
   \<and> (\<exists>msg. DropBoxStorage_init no_settings None (Some ''/dir'') = Inl (ImproperlyConfigured msg))"
proof -
  have a: "absent no_settings None key" for key
    by (simp add: absent_def truthy_def setting_def no_settings_def)
  from constructors_require_configuration [where conf = no_settings
      and team_namespace = "Some ''1234''" and team_admin = None and tok = "Some ''token''"
      and root = None and hdrs = None]
    constructors_require_configuration [where conf = no_settings and tok = None
      and root = "Some ''/dir''"] a
  show ?thesis by simp
qed

text \<open>
  C5. Given an access token, a team namespace and a team admin identifier, the team
  constructor is claimed to build a client with the namespace header and to act as the
  admin. The source never imports \<open>DropboxTeam\<close>, so the constructor raises \<open>NameError\<close>
  once the three checks have passed, and it returns a storage object for no arguments.
\<close>

theorem team_constructor_name_error:
  "DropBoxTeamStorage_init no_settings (Some ''token'') None None (Some ''1234'') (Some ''admin'')
     = Inl (NameError ''DropboxTeam'')"
  by (simp add: DropBoxTeamStorage_init_def py_or_def truthy_def module_globals_def)

lemma team_constructor_never_returns:
  "DropBoxTeamStorage_init conf tok root hdrs ns admin \<noteq> Inr s"
  by (simp add: DropBoxTeamStorage_init_def module_globals_def Let_def split: option.splits)

subsection \<open>Path resolution\<close>

text \<open>
  What holds of \<open>_full_path\<close> for every name: the name \<open>/\<close> resolves as the empty
  name does, no backslash is left in the result, and the path that \<open>safe_join\<close> returns
  passes its own test. That test comes before the backslashes are replaced.
\<close>

lemma str_replace_char:
  "str_replace [a] [b] s = map (\<lambda>c. if c = a then b else c) s"
proof (induction s)
  case Nil
  show ?case by (subst str_replace.simps) simp
next
  case (Cons c cs)
  then show ?case by (subst str_replace.simps) auto
qed

lemma full_path_bare_separator: "full_path cwd self ''/'' = full_path cwd self []"
  by (simp add: full_path_def)

lemma full_path_forward_slashes:
  "full_path cwd self name = Inr p \<Longrightarrow> backslash \<notin> set p"
  by (auto simp: full_path_def str_replace_char Let_def backslash_def
      split: option.splits sum.splits)

lemma safe_join_under_base:
  "safe_join cwd base name = Inr p \<Longrightarrow> under_base (abspath cwd base) p"
  by (auto simp: safe_join_def Let_def split: if_splits)

text \<open>
  C3. \<open>_full_path\<close> is claimed never to produce a path outside the configured root. With
  the root \<open>/dir\<close>, the name \<open>..\secret\<close> passes \<open>safe_join\<close> (on a POSIX host the
  backslash is an ordinary character of a file name), and the backslash is then turned
  into a separator: the result \<open>/dir/../secret\<close> denotes \<open>/secret\<close>, which \<open>safe_join\<close>
  itself rejects when the name is written \<open>../secret\<close>.
\<close>

theorem full_path_backslash_escapes:
  "full_path ''/'' (sample_storage ''/dir'') (''..'' @ [backslash] @ ''secret'') = Inr ''/dir/../secret''
   \<and> normpath ''/dir/../secret'' = ''/secret''
   \<and> \<not> under_base ''/dir'' ''/secret''
   \<and> full_path ''/'' (sample_storage ''/dir'') ''../secret'' = Inl SuspiciousFileOperation"
  by code_simp

subsection \<open>The file object\<close>

text \<open>
  C8. The first read of the property \<open>file\<close> of a file object makes exactly one remote
  download, copies the stream into a fresh buffer, rewinds the buffer and caches it;
  every later read returns the cached buffer and makes no call, so any number of reads
  in a row leaves exactly the one download in the record of calls.
\<close>

theorem file_downloads_once:
  assumes "file_cache f = None"
    and "files_download api (client (file_storage f)) (file_name f) = Inr response"
  shows "\<exists>f' b. file_of api f calls = (calls @ [FilesDownload (file_name f)], f', Inr b)
           \<and> buffer_data b = response \<and> buffer_pos b = 0
           \<and> file_cache f' = Some b
           \<and> file_of api f' calls' = (calls', f', Inr b)
           \<and> read_file_times (Suc n) api f calls = (calls @ [FilesDownload (file_name f)], f')
           \<and> count is_download (fst (read_file_times (Suc n) api f calls))
               = Suc (count is_download calls)"
  using assms
  by (simp add: file_of_def copyfileobj_def seek_def SpooledTemporaryFile_def Let_def
      read_file_times_cached count_def)

theorem file_downloads_once_witness:
  "\<exists>f' b. file_of accepting (DropBoxFile ''/dir/a.txt'' (sample_storage ''/dir'')) []
             = ([FilesDownload ''/dir/a.txt''], f', Inr b)
         \<and> buffer_data b = ''hello'' \<and> buffer_pos b = 0 \<and> file_cache f' = Some b
         \<and> file_of accepting f' [FilesDownload ''/dir/a.txt''] = ([FilesDownload ''/dir/a.txt''], f', Inr b)
         \<and> read_file_times 3 accepting (DropBoxFile ''/dir/a.txt'' (sample_storage ''/dir'')) []
             = ([FilesDownload ''/dir/a.txt''], f')
         \<and> count is_download
              (fst (read_file_times 3 accepting
                      (DropBoxFile ''/dir/a.txt'' (sample_storage ''/dir'')) [])) = 1"
  using file_downloads_once [of "DropBoxFile ''/dir/a.txt'' (sample_storage ''/dir'')" accepting
      "''hello''" "[]" "[FilesDownload ''/dir/a.txt'']" 2]
  by (simp add: DropBoxFile_def accepting_def numeral_3_eq_3 count_def)

end
